theory Spec2Isabelle
  imports Main
begin

section \<open>Strings as Python sees them\<close>

text \<open>
  A Python \<^verbatim>\<open>str\<close> is a sequence of Unicode code points; the model writes a code
  point as its number.  \<open>lit\<close> turns a literal of the program text into such a
  sequence and \<open>cp\<close> a character into its code point.
\<close>

type_synonym str = "nat list"

definition cp :: "char \<Rightarrow> nat" where
  "cp c = of_char c"

definition lit :: "string \<Rightarrow> str" where
  "lit s = map cp s"

text \<open>
  \<^verbatim>\<open>str.isspace\<close> for one code point, as the interpreter's Unicode tables have it, and
  \<^verbatim>\<open>str.strip()\<close>, which removes such code points at both ends.
\<close>

definition isspace :: "nat \<Rightarrow> bool" where
  "isspace c =
     ((0x09 \<le> c \<and> c \<le> 0x0D) \<or> (0x1C \<le> c \<and> c \<le> 0x20) \<or> c = 0x85 \<or> c = 0xA0 \<or>
      c = 0x1680 \<or> (0x2000 \<le> c \<and> c \<le> 0x200A) \<or> c = 0x2028 \<or> c = 0x2029 \<or>
      c = 0x202F \<or> c = 0x205F \<or> c = 0x3000)"

definition strip :: "str \<Rightarrow> str" where
  "strip s = rev (dropWhile isspace (rev (dropWhile isspace s)))"

text \<open>
  \<^verbatim>\<open>s.startswith(p)\<close> holds when \<^verbatim>\<open>p\<close> is an initial segment of \<^verbatim>\<open>s\<close>, and
  \<^verbatim>\<open>sub in s\<close> when \<^verbatim>\<open>sub\<close> occurs in \<^verbatim>\<open>s\<close> as a contiguous run.
\<close>

fun startswith :: "str \<Rightarrow> str \<Rightarrow> bool" where
  "startswith s [] = True"
| "startswith [] (p # ps) = False"
| "startswith (c # cs) (p # ps) = (c = p \<and> startswith cs ps)"

fun py_in :: "str \<Rightarrow> str \<Rightarrow> bool" where
  "py_in sub [] = (sub = [])"
| "py_in sub (c # cs) = (startswith (c # cs) sub \<or> py_in sub cs)"

text \<open>
  \<^verbatim>\<open>str.lower()\<close> follows the case mappings of the Unicode tables of the interpreter,
  which are not part of the repository: the lowering function is a parameter of the
  model (the field \<open>str_lower\<close> of the state below), and what is proved holds for every
  such function.  The examples use the function below, which is \<^verbatim>\<open>str.lower()\<close> on
  text whose code points are below 256; all the text of the examples is.
\<close>

definition example_lower :: "str \<Rightarrow> str" where
  "example_lower s =
     map (\<lambda>c. if (65 \<le> c \<and> c \<le> 90) \<or> (192 \<le> c \<and> c \<le> 222 \<and> c \<noteq> 215) then c + 32 else c) s"

section \<open>Shell-style matching: \<^verbatim>\<open>fnmatch.fnmatch\<close>\<close>

text \<open>
  \<^verbatim>\<open>ActionRequest.matches_pattern\<close> calls the standard library's
  \<^verbatim>\<open>fnmatch.fnmatch(name, pat)\<close>.  The library (CPython 3.11) translates the pattern into a
  regular expression and matches the whole name against it.  The model keeps the two steps:
  \<open>translate\<close> turns the pattern into a list of tokens, one per piece of the regular
  expression, and \<open>tmatch\<close> decides whether a name is in the language of the tokens.

    \<^item> \<^verbatim>\<open>*\<close> matches everything (\<open>STAR\<close>; a run of stars is one star);
    \<^item> \<^verbatim>\<open>?\<close> matches any single character (\<open>ANY\<close>);
    \<^item> \<^verbatim>\<open>[seq]\<close> matches any character in \<^verbatim>\<open>seq\<close>, \<^verbatim>\<open>[!seq]\<close> any character
      not in it (\<open>SET\<close>); a \<^verbatim>\<open>[\<close> with no closing bracket is an ordinary character;
    \<^item> every other character matches itself (\<open>LIT\<close>).

  A character is a code point, in the pattern and in the name.  Inside brackets the
  library cuts the text at the hyphens that form ranges, drops the ranges whose bounds
  are in descending order, and writes the rest as a character set of the regular
  expression; a set that became empty matches nothing (\<open>NEVER\<close>), and a negated one that
  became empty matches any character.
\<close>

datatype sym = L nat | Hy

datatype item = Ch nat | Rng nat nat

datatype token = STAR | ANY | NEVER | LIT nat | SET bool "item list"

text \<open>
  The end of a bracket expression: the index of the closing bracket in the text after
  the opening one, where a leading \<^verbatim>\<open>!\<close> and a bracket right after it do not close.
\<close>

definition class_end :: "str \<Rightarrow> nat option" where
  "class_end rest =
     (let j0 = (if 0 < length rest \<and> rest ! 0 = cp (CHR ''!'') then 1 else 0);
          j1 = (if j0 < length rest \<and> rest ! j0 = cp (CHR '']'') then j0 + 1 else j0);
          j2 = j1 + length (takeWhile (\<lambda>c. c \<noteq> cp (CHR '']'')) (drop j1 rest))
      in if length rest \<le> j2 then None else Some j2)"

text \<open>
  The chunks between range hyphens.  \<open>skip\<close> counts the characters that cannot be a
  range hyphen: the first one (the first two after \<^verbatim>\<open>!\<close>), and the two after a range
  hyphen, which are the upper bound of that range and the lower bound of the next.
\<close>

fun chunks_of :: "nat \<Rightarrow> str \<Rightarrow> str \<Rightarrow> str list" where
  "chunks_of skip cur [] = [cur]"
| "chunks_of skip cur (c # cs) =
     (if c = cp (CHR ''-'') \<and> skip = 0 then cur # chunks_of 2 [] cs
      else chunks_of (skip - 1) (cur @ [c]) cs)"

text \<open>A hyphen right before the closing bracket belongs to the chunk before it.\<close>

definition close_chunks :: "str list \<Rightarrow> str list" where
  "close_chunks chunks =
     (if 2 \<le> length chunks \<and> last chunks = []
      then butlast (butlast chunks) @ [last (butlast chunks) @ [cp (CHR ''-'')]]
      else chunks)"

text \<open>
  Removing the empty ranges, from the last boundary to the first: where the lower bound
  is above the upper bound, both bounds go and the two chunks become one.
\<close>

fun remove_empty_ranges :: "str list \<Rightarrow> str list" where
  "remove_empty_ranges (a # b # rest) =
     (case remove_empty_ranges (b # rest) of
        [] \<Rightarrow> [a]
      | b' # rest' \<Rightarrow>
          if hd b' < last a then (butlast a @ tl b') # rest'
          else a # b' # rest')"
| "remove_empty_ranges chunks = chunks"

text \<open>
  The text of the character set: the characters of the chunks, which all stand for
  themselves (the library escapes them), joined by the hyphens that form ranges.
\<close>

fun join_chunks :: "str list \<Rightarrow> sym list" where
  "join_chunks [] = []"
| "join_chunks [c] = map L c"
| "join_chunks (c # cs) = map L c @ Hy # join_chunks cs"

fun sym_char :: "sym \<Rightarrow> nat" where
  "sym_char (L c) = c"
| "sym_char Hy = cp (CHR ''-'')"

text \<open>
  How the regular expression reads a character set: a symbol followed by a hyphen and
  another symbol is a range, any other symbol is a single character.
\<close>

fun set_items :: "sym list \<Rightarrow> item list" where
  "set_items (x # Hy # y # rest) = Rng (sym_char x) (sym_char y) # set_items rest"
| "set_items (x # rest) = Ch (sym_char x) # set_items rest"
| "set_items [] = []"

definition class_token :: "str \<Rightarrow> token" where
  "class_token stuff =
     (let chunks =
            (if cp (CHR ''-'') \<notin> set stuff then [stuff]
             else remove_empty_ranges
                    (close_chunks
                       (chunks_of (if hd stuff = cp (CHR ''!'') then 2 else 1) [] stuff)));
          syms = join_chunks chunks
      in if syms = [] then NEVER
         else if syms = [L (cp (CHR ''!''))] then ANY
         else if hd syms = L (cp (CHR ''!'')) then SET True (set_items (tl syms))
         else SET False (set_items syms))"

fun translate :: "str \<Rightarrow> token list" where
  "translate [] = []"
| "translate (c # rest) =
     (if c = cp (CHR ''*'') then
        (case translate rest of STAR # ts \<Rightarrow> STAR # ts | ts \<Rightarrow> STAR # ts)
      else if c = cp (CHR ''?'') then ANY # translate rest
      else if c = cp (CHR ''['') then
        (case class_end rest of
           None \<Rightarrow> LIT (cp (CHR ''['')) # translate rest
         | Some j \<Rightarrow> class_token (take j rest) # translate (drop (Suc j) rest))
      else LIT c # translate rest)"

fun item_has :: "item \<Rightarrow> nat \<Rightarrow> bool" where
  "item_has (Ch d) c = (c = d)"
| "item_has (Rng lo hi) c = (lo \<le> c \<and> c \<le> hi)"

fun token_ok :: "token \<Rightarrow> nat \<Rightarrow> bool" where
  "token_ok ANY c = True"
| "token_ok (LIT d) c = (c = d)"
| "token_ok (SET negated items) c = (negated \<noteq> (\<exists>i \<in> set items. item_has i c))"
| "token_ok NEVER c = False"
| "token_ok STAR c = True"

fun tmatch :: "token list \<Rightarrow> str \<Rightarrow> bool" where
  "tmatch [] name = (name = [])"
| "tmatch (t # ts) [] = (t = STAR \<and> tmatch ts [])"
| "tmatch (t # ts) (c # cs) =
     (if t = STAR then tmatch ts (c # cs) \<or> tmatch (t # ts) cs
      else token_ok t c \<and> tmatch ts cs)"

text \<open>\<^verbatim>\<open>os.path.normcase\<close> is the identity on POSIX systems.\<close>

definition normcase :: "str \<Rightarrow> str" where
  "normcase s = s"

definition fnmatch :: "str \<Rightarrow> str \<Rightarrow> bool" where
  "fnmatch name pat = tmatch (translate (normcase pat)) (normcase name)"


section \<open>The audit trail (\<^verbatim>\<open>core/logger.py\<close>)\<close>

datatype ActionType = READ_t | WRITE | DELETE | EXECUTE_t | SYSTEM | PERMISSION

fun type_value :: "ActionType \<Rightarrow> str" where
  "type_value READ_t = lit ''read''"
| "type_value WRITE = lit ''write''"
| "type_value DELETE = lit ''delete''"
| "type_value EXECUTE_t = lit ''execute''"
| "type_value SYSTEM = lit ''system''"
| "type_value PERMISSION = lit ''permission''"

datatype ActionStatus = PENDING | APPROVED | DENIED | EXECUTED | FAILED | DRY_RUN

fun status_value :: "ActionStatus \<Rightarrow> str" where
  "status_value PENDING = lit ''pending''"
| "status_value APPROVED = lit ''approved''"
| "status_value DENIED = lit ''denied''"
| "status_value EXECUTED = lit ''executed''"
| "status_value FAILED = lit ''failed''"
| "status_value DRY_RUN = lit ''dry_run''"

text \<open>
  The values of \<^verbatim>\<open>metadata\<close> that the permission manager writes are strings or
  \<^verbatim>\<open>None\<close>.
\<close>

type_synonym metadata = "(str \<times> str option) list"

record AuditEntry =
  timestamp :: str
  action_type_entry :: str
  action_description :: str
  permission_level :: int
  user_approved :: "bool option"
  status_entry :: str
  result :: "str option"
  metadata :: metadata

text \<open>
  \<^verbatim>\<open>AuditEntry.create\<close>; \<open>now\<close> is the reading of
  \<^verbatim>\<open>datetime.now().isoformat()\<close>, and \<^verbatim>\<open>metadata or {}\<close> is the empty mapping
  for \<^verbatim>\<open>None\<close>.
\<close>

definition create ::
  "str \<Rightarrow> ActionType \<Rightarrow> str \<Rightarrow> int \<Rightarrow> bool option \<Rightarrow> ActionStatus \<Rightarrow> str option
     \<Rightarrow> metadata option \<Rightarrow> AuditEntry" where
  "create now atype descr level approved st res meta =
     \<lparr>timestamp = now, action_type_entry = type_value atype, action_description = descr,
      permission_level = level, user_approved = approved, status_entry = status_value st,
      result = res, metadata = (case meta of None \<Rightarrow> [] | Some m \<Rightarrow> m)\<rparr>"

text \<open>
  The store is a file of lines, each ended by its newline.  A line is modelled by what
  reading it as UTF-8, \<^verbatim>\<open>line.strip()\<close> and \<^verbatim>\<open>AuditEntry.from_json\<close> make of it:

    \<^item> \<open>Blank_Line\<close>: nothing is left after \<^verbatim>\<open>strip()\<close>;
    \<^item> \<open>Entry_Line e\<close>: the text \<^verbatim>\<open>e.to_json()\<close>, which \<^verbatim>\<open>json.loads\<close> and
      \<^verbatim>\<open>cls(**data)\<close> turn back into \<open>e\<close>;
    \<^item> \<open>Garbled_Line t\<close>: a text \<open>t\<close> that is not JSON, so that \<^verbatim>\<open>json.loads\<close> raises
      \<^verbatim>\<open>json.JSONDecodeError\<close> (a record cut short between two characters is such a
      line);
    \<^item> \<open>Foreign_Line t\<close>: a text \<open>t\<close> that is JSON but not a mapping with the fields of
      an entry (\<^verbatim>\<open>{}\<close>, \<^verbatim>\<open>[]\<close>, \<^verbatim>\<open>17\<close>), so that \<^verbatim>\<open>cls(**data)\<close> raises
      \<^verbatim>\<open>TypeError\<close>;
    \<^item> \<open>Undecodable_Line k\<close>: bytes that are not UTF-8 (a record cut short inside a
      character of several bytes is such a line), so that the file object raises
      \<^verbatim>\<open>UnicodeDecodeError\<close> when it decodes them.  The file object decodes a buffer
      at a time: \<open>k\<close> is the number of lines before this one that are in its buffer,
      and that are therefore not handed out either.
\<close>

datatype log_line =
    Blank_Line
  | Entry_Line AuditEntry
  | Garbled_Line str
  | Foreign_Line str
  | Undecodable_Line nat

datatype error = JSONDecodeError | TypeError | UnicodeDecodeError

text \<open>\<^verbatim>\<open>AuditEntry.from_json\<close> on a line that was decoded and stripped.\<close>

fun from_json :: "log_line \<Rightarrow> error + AuditEntry" where
  "from_json (Entry_Line e) = Inr e"
| "from_json (Garbled_Line t) = Inl JSONDecodeError"
| "from_json (Foreign_Line t) = Inl TypeError"
| "from_json Blank_Line = Inl JSONDecodeError"
| "from_json (Undecodable_Line k) = Inl UnicodeDecodeError"

fun is_undecodable :: "log_line \<Rightarrow> bool" where
  "is_undecodable (Undecodable_Line k) = True"
| "is_undecodable line = False"

text \<open>
  \<^verbatim>\<open>f.readlines()\<close> decodes the whole file: it raises when some line is not UTF-8.
\<close>

definition readlines :: "log_line list \<Rightarrow> error + log_line list" where
  "readlines lines =
     (if \<exists>line \<in> set lines. is_undecodable line then Inl UnicodeDecodeError else Inr lines)"

text \<open>
  \<^verbatim>\<open>for line in f\<close> hands out the lines up to the buffer that holds the first line
  that is not UTF-8, and raises when it decodes that buffer; \<open>handed_out\<close> gives these
  lines and whether the iteration ends by raising.
\<close>

definition handed_out :: "log_line list \<Rightarrow> log_line list \<times> bool" where
  "handed_out lines =
     (let good = takeWhile (\<lambda>line. \<not> is_undecodable line) lines
      in case dropWhile (\<lambda>line. \<not> is_undecodable line) lines of
           Undecodable_Line k # rest \<Rightarrow> (take (length good - k) good, True)
         | rest \<Rightarrow> (lines, False))"

text \<open>
  \<^verbatim>\<open>date_str in line\<close>, the test \<^verbatim>\<open>get_by_date\<close> makes before it parses a line.  The
  text of an entry contains its timestamp as it is, a date being digits and hyphens.
\<close>

fun mentions :: "str \<Rightarrow> log_line \<Rightarrow> bool" where
  "mentions d (Entry_Line e) = py_in d (timestamp e)"
| "mentions d (Garbled_Line t) = py_in d t"
| "mentions d (Foreign_Line t) = py_in d t"
| "mentions d line = False"

section \<open>Requests and results (\<^verbatim>\<open>core/permission_manager.py\<close>)\<close>

datatype PermissionLevel = READ | SUGGEST | SAFE_WRITE | SYSTEM_WRITE | EXECUTE | ADMIN

fun level_value :: "PermissionLevel \<Rightarrow> int" where
  "level_value READ = 0"
| "level_value SUGGEST = 1"
| "level_value SAFE_WRITE = 2"
| "level_value SYSTEM_WRITE = 3"
| "level_value EXECUTE = 4"
| "level_value ADMIN = 5"

text \<open>The values of \<^verbatim>\<open>parameters\<close> are kept as the text an f-string prints for them.\<close>

record ActionRequest =
  action_type :: str
  description :: str
  target :: "str option"
  parameters :: "(str \<times> str) list option"
  required_level :: PermissionLevel

definition matches_pattern :: "ActionRequest \<Rightarrow> str \<Rightarrow> bool" where
  "matches_pattern action pattern = fnmatch (action_type action) pattern"

record ActionResult =
  success :: bool
  status :: str
  message :: "str option"
  data :: "str option"
  dry_run :: bool

section \<open>The permission manager and the world it acts on\<close>

text \<open>
  One record holds the attributes of the \<^verbatim>\<open>PermissionManager\<close> object
  (\<open>blacklist\<close>, \<open>auto_approve\<close>, \<open>whitelist\<close>, \<open>approval_callback\<close>) and what its
  methods read and write outside of it:

    \<^item> \<open>log_file\<close>: the lines of the file at \<^verbatim>\<open>logger.log_path\<close>, \<open>None\<close> when the file
      does not exist;
    \<^item> \<open>clock\<close> and \<open>ticks\<close>: \<open>clock n\<close> is what the \<open>n\<close>-th reading of
      \<^verbatim>\<open>datetime.now().isoformat()\<close> returns, \<open>ticks\<close> counts the readings made;
    \<^item> \<open>stdin\<close>: the lines the user will type at the prompt; \<^verbatim>\<open>input()\<close> takes the
      first one, and raises \<^verbatim>\<open>EOFError\<close> when there is none;
    \<^item> \<open>callback_calls\<close>: the arguments of every call made to the approval callback, in
      order.  The callback itself is a function of its two arguments;
    \<^item> \<open>str_lower\<close>: what \<^verbatim>\<open>str.lower()\<close> returns in the running interpreter.

  What \<^verbatim>\<open>print\<close> writes to the console is not modelled.
\<close>

record PermissionManager =
  blacklist :: "str list"
  auto_approve :: "str list"
  whitelist :: "str \<rightharpoonup> PermissionLevel"
  approval_callback :: "(str \<Rightarrow> str \<Rightarrow> bool) option"
  callback_calls :: "(str \<times> str) list"
  log_file :: "log_line list option"
  clock :: "nat \<Rightarrow> str"
  ticks :: nat
  stdin :: "str list"
  str_lower :: "str \<Rightarrow> str"

subsection \<open>\<^verbatim>\<open>AuditLogger\<close>\<close>

definition file_lines :: "PermissionManager \<Rightarrow> log_line list" where
  "file_lines s = (case log_file s of None \<Rightarrow> [] | Some ls \<Rightarrow> ls)"

text \<open>\<^verbatim>\<open>log\<close> opens the file for appending, which creates it when it is missing.\<close>

definition log :: "PermissionManager \<Rightarrow> AuditEntry \<Rightarrow> PermissionManager" where
  "log s entry = s\<lparr>log_file := Some (file_lines s @ [Entry_Line entry])\<rparr>"

definition log_action ::
  "PermissionManager \<Rightarrow> ActionType \<Rightarrow> str \<Rightarrow> int \<Rightarrow> bool option \<Rightarrow> ActionStatus \<Rightarrow> str option
     \<Rightarrow> metadata option \<Rightarrow> AuditEntry \<times> PermissionManager" where
  "log_action s atype descr level approved st res meta =
     (let entry = create (clock s (ticks s)) atype descr level approved st res meta
      in (entry, log (s\<lparr>ticks := Suc (ticks s)\<rparr>) entry))"

text \<open>
  \<^verbatim>\<open>xs[start:]\<close>: a negative \<^verbatim>\<open>start\<close> counts from the end, and both ends are
  clamped to the list.
\<close>

definition slice_from :: "'a list \<Rightarrow> int \<Rightarrow> 'a list" where
  "slice_from xs start =
     (if start < 0 then drop (nat (int (length xs) + start)) xs else drop (nat start) xs)"

text \<open>
  The loop of \<^verbatim>\<open>get_recent\<close>.  Only \<^verbatim>\<open>json.JSONDecodeError\<close> is caught; any other
  exception of \<^verbatim>\<open>from_json\<close> leaves the loop and the method.
\<close>

fun recent_scan :: "log_line list \<Rightarrow> AuditEntry list \<Rightarrow> error + AuditEntry list" where
  "recent_scan [] entries = Inr entries"
| "recent_scan (line # lines) entries =
     (if line = Blank_Line then recent_scan lines entries
      else case from_json line of
             Inr entry \<Rightarrow> recent_scan lines (entries @ [entry])
           | Inl JSONDecodeError \<Rightarrow> recent_scan lines entries
           | Inl err \<Rightarrow> Inl err)"

definition get_recent :: "PermissionManager \<Rightarrow> int \<Rightarrow> error + AuditEntry list" where
  "get_recent s limit =
     (case log_file s of
        None \<Rightarrow> Inr []
      | Some stored \<Rightarrow>
          (case readlines stored of
             Inl err \<Rightarrow> Inl err
           | Inr lines \<Rightarrow> recent_scan (rev (slice_from lines (- limit))) []))"

text \<open>
  The loop of \<^verbatim>\<open>get_by_date\<close>; \<open>date_str\<close> is \<^verbatim>\<open>date.strftime("%Y-%m-%d")\<close>, and
  \<open>raises\<close> tells whether the iteration over the file ends by raising.
\<close>

fun date_scan ::
  "str \<Rightarrow> bool \<Rightarrow> log_line list \<Rightarrow> AuditEntry list \<Rightarrow> error + AuditEntry list" where
  "date_scan date_str raises [] entries =
     (if raises then Inl UnicodeDecodeError else Inr entries)"
| "date_scan date_str raises (line # lines) entries =
     (if line \<noteq> Blank_Line \<and> mentions date_str line then
        (case from_json line of
           Inr entry \<Rightarrow>
             date_scan date_str raises lines
               (if startswith (timestamp entry) date_str then entries @ [entry] else entries)
         | Inl JSONDecodeError \<Rightarrow> date_scan date_str raises lines entries
         | Inl err \<Rightarrow> Inl err)
      else date_scan date_str raises lines entries)"

definition get_by_date :: "PermissionManager \<Rightarrow> str \<Rightarrow> error + AuditEntry list" where
  "get_by_date s date_str =
     (case log_file s of
        None \<Rightarrow> Inr []
      | Some stored \<Rightarrow>
          date_scan date_str (snd (handed_out stored)) (fst (handed_out stored)) [])"

text \<open>
  \<^verbatim>\<open>get_by_action_type\<close> and \<^verbatim>\<open>get_denied_actions\<close> run the same loop with a
  different test on the entry: once a line is handed out, the loop stops if \<open>limit\<close>
  entries are collected.
\<close>

fun limit_scan ::
  "(AuditEntry \<Rightarrow> bool) \<Rightarrow> int \<Rightarrow> bool \<Rightarrow> log_line list \<Rightarrow> AuditEntry list
     \<Rightarrow> error + AuditEntry list"
  where
  "limit_scan keep limit raises [] entries =
     (if raises then Inl UnicodeDecodeError else Inr entries)"
| "limit_scan keep limit raises (line # lines) entries =
     (if limit \<le> int (length entries) then Inr entries
      else if line = Blank_Line then limit_scan keep limit raises lines entries
      else case from_json line of
             Inr entry \<Rightarrow>
               limit_scan keep limit raises lines
                 (if keep entry then entries @ [entry] else entries)
           | Inl JSONDecodeError \<Rightarrow> limit_scan keep limit raises lines entries
           | Inl err \<Rightarrow> Inl err)"

definition get_by_action_type ::
  "PermissionManager \<Rightarrow> ActionType \<Rightarrow> int \<Rightarrow> error + AuditEntry list" where
  "get_by_action_type s atype limit =
     (case log_file s of
        None \<Rightarrow> Inr []
      | Some stored \<Rightarrow>
          limit_scan (\<lambda>entry. action_type_entry entry = type_value atype) limit
            (snd (handed_out stored)) (fst (handed_out stored)) [])"

definition get_denied_actions :: "PermissionManager \<Rightarrow> int \<Rightarrow> error + AuditEntry list" where
  "get_denied_actions s limit =
     (case log_file s of
        None \<Rightarrow> Inr []
      | Some stored \<Rightarrow>
          limit_scan (\<lambda>entry. status_entry entry = status_value DENIED) limit
            (snd (handed_out stored)) (fst (handed_out stored)) [])"

subsection \<open>\<^verbatim>\<open>PermissionManager\<close>\<close>

text \<open>The lists of \<^verbatim>\<open>_default_config\<close>, and \<^verbatim>\<open>_apply_config\<close> on a new manager.\<close>

definition default_auto_approve :: "str list" where
  "default_auto_approve =
     [lit ''list_files'', lit ''read_file'', lit ''get_system_info'', lit ''get_time'']"

definition default_blacklist :: "str list" where
  "default_blacklist =
     [lit ''format_disk'', lit ''rm -rf /'', lit ''rm -rf /*'', lit ''del /f /s /q *'',
      lit ''format c:'']"

definition apply_config :: "str list \<Rightarrow> str list \<Rightarrow> PermissionManager \<Rightarrow> PermissionManager" where
  "apply_config approve deny s =
     s\<lparr>auto_approve := approve, blacklist := deny,
       whitelist := foldl (\<lambda>w pattern. w(pattern \<mapsto> READ)) (whitelist s) approve\<rparr>"

text \<open>
  \<^verbatim>\<open>__init__\<close> with the permissions of a configuration and a logger whose file exists
  and holds \<open>lines\<close>; no approval callback is set.  The clock, the console and the
  lowering function are those of the world the manager runs in.
\<close>

definition new_manager ::
  "str list \<Rightarrow> str list \<Rightarrow> log_line list \<Rightarrow> (nat \<Rightarrow> str) \<Rightarrow> str list \<Rightarrow> (str \<Rightarrow> str)
     \<Rightarrow> PermissionManager" where
  "new_manager approve deny lines clk console lowering =
     apply_config approve deny
       \<lparr>blacklist = [], auto_approve = [], whitelist = Map.empty, approval_callback = None,
        callback_calls = [], log_file = Some lines, clock = clk, ticks = 0, stdin = console,
        str_lower = lowering\<rparr>"

definition set_approval_callback ::
  "PermissionManager \<Rightarrow> (str \<Rightarrow> str \<Rightarrow> bool) \<Rightarrow> PermissionManager" where
  "set_approval_callback s callback = s\<lparr>approval_callback := Some callback\<rparr>"

text \<open>
  \<^verbatim>\<open>_is_blacklisted\<close>: the loop over the patterns returns at the first test that holds.
  \<^verbatim>\<open>action.target and ...\<close> skips the test when the target is \<^verbatim>\<open>None\<close> or empty.
  \<open>lower\<close> is \<^verbatim>\<open>str.lower\<close>.
\<close>

fun blacklisted_by :: "(str \<Rightarrow> str) \<Rightarrow> str list \<Rightarrow> ActionRequest \<Rightarrow> bool" where
  "blacklisted_by lower [] action = False"
| "blacklisted_by lower (pattern # patterns) action =
     (if matches_pattern action pattern then True
      else if (case target action of
                 None \<Rightarrow> False
               | Some t \<Rightarrow> t \<noteq> [] \<and> py_in (lower pattern) (lower t)) then True
      else if py_in (lower pattern) (lower (description action)) then True
      else blacklisted_by lower patterns action)"

definition is_blacklisted :: "PermissionManager \<Rightarrow> ActionRequest \<Rightarrow> bool" where
  "is_blacklisted s action = blacklisted_by (str_lower s) (blacklist s) action"

fun approved_by :: "str list \<Rightarrow> ActionRequest \<Rightarrow> bool" where
  "approved_by [] action = False"
| "approved_by (pattern # patterns) action =
     (if matches_pattern action pattern then True else approved_by patterns action)"

definition is_auto_approved :: "PermissionManager \<Rightarrow> ActionRequest \<Rightarrow> bool" where
  "is_auto_approved s action = approved_by (auto_approve s) action"

text \<open>
  \<^verbatim>\<open>_generate_preview\<close>.  The signs that open its first line are written as the code
  points they have in the source file; an f-string prints \<^verbatim>\<open>None\<close> for a missing
  target.
\<close>

definition newline :: nat where
  "newline = 0x0A"

definition sign_delete :: str where
  "sign_delete = [0xE2, 0x161, 0xA0, 0xEF, 0xB8]"

definition sign_write :: str where
  "sign_write = [0xF0, 0x178, 0x201C]"

definition sign_execute :: str where
  "sign_execute = [0xF0, 0x178, 0x2013, 0xA5, 0xEF, 0xB8]"

definition sign_move :: str where
  "sign_move = [0xF0, 0x178, 0x201C, 0xA6]"

definition sign_other :: str where
  "sign_other = [0xF0, 0x178, 0x201D, 0xA7]"

definition str_opt :: "str option \<Rightarrow> str" where
  "str_opt t = (case t of None \<Rightarrow> lit ''None'' | Some text \<Rightarrow> text)"

fun join_lines :: "str list \<Rightarrow> str" where
  "join_lines [] = []"
| "join_lines [l] = l"
| "join_lines (l # ls) = l @ newline # join_lines ls"

definition generate_preview :: "ActionRequest \<Rightarrow> str" where
  "generate_preview action =
     (let first =
            (if startswith (action_type action) (lit ''delete'')
               then sign_delete @ lit ''  This will DELETE: '' @ str_opt (target action)
             else if startswith (action_type action) (lit ''write'')
               then sign_write @ lit '' This will WRITE to: '' @ str_opt (target action)
             else if startswith (action_type action) (lit ''execute'')
               then sign_execute @ lit ''  This will EXECUTE: '' @ str_opt (target action)
             else if startswith (action_type action) (lit ''move'')
               then sign_move @ lit '' This will MOVE: '' @ str_opt (target action)
             else sign_other @ lit '' This will perform: '' @ description action);
          rest =
            (case parameters action of
               None \<Rightarrow> []
             | Some ps \<Rightarrow>
                 if ps = [] then []
                 else (newline # lit ''Parameters:'')
                        # map (\<lambda>(key, v). lit ''  - '' @ key @ lit '': '' @ v) ps)
      in join_lines (first # rest))"

definition add_to_whitelist :: "PermissionManager \<Rightarrow> str \<Rightarrow> PermissionLevel \<Rightarrow> PermissionManager" where
  "add_to_whitelist s pattern level =
     snd (log_action (s\<lparr>whitelist := (whitelist s)(pattern \<mapsto> level)\<rparr>) PERMISSION
            (lit ''Added to whitelist: '' @ pattern) (level_value level) None EXECUTED None None)"

definition add_to_blacklist :: "PermissionManager \<Rightarrow> str \<Rightarrow> PermissionManager" where
  "add_to_blacklist s pattern =
     (if pattern \<notin> set (blacklist s) then
        snd (log_action (s\<lparr>blacklist := blacklist s @ [pattern]\<rparr>) PERMISSION
               (lit ''Added to blacklist: '' @ pattern) (level_value ADMIN) None EXECUTED None
               None)
      else s)"

text \<open>\<^verbatim>\<open>list.remove\<close> takes out the first occurrence.\<close>

definition remove_from_blacklist :: "PermissionManager \<Rightarrow> str \<Rightarrow> bool \<times> PermissionManager" where
  "remove_from_blacklist s pattern =
     (if pattern \<in> set (blacklist s) then
        (True,
         snd (log_action (s\<lparr>blacklist := remove1 pattern (blacklist s)\<rparr>) PERMISSION
                (lit ''Removed from blacklist: '' @ pattern) (level_value ADMIN) None EXECUTED
                None None))
      else (False, s))"

text \<open>
  \<^verbatim>\<open>input()\<close> at the prompt: the next line of the console, or nothing at the end of
  the input (\<^verbatim>\<open>EOFError\<close>; \<^verbatim>\<open>KeyboardInterrupt\<close> is handled the same way).
\<close>

definition read_input :: "PermissionManager \<Rightarrow> str option \<times> PermissionManager" where
  "read_input s = (case stdin s of [] \<Rightarrow> (None, s) | l # ls \<Rightarrow> (Some l, s\<lparr>stdin := ls\<rparr>))"

definition cli_approval ::
  "PermissionManager \<Rightarrow> ActionRequest \<Rightarrow> bool \<Rightarrow> ActionResult \<times> PermissionManager" where
  "cli_approval s action dry =
     (let (typed, s1) = read_input s;
          response = (case typed of None \<Rightarrow> lit ''n'' | Some l \<Rightarrow> str_lower s (strip l))
      in if response = lit ''never'' then
           (\<lparr>success = False, status = lit ''BLACKLISTED'',
             message = Some (lit ''Action added to blacklist.''), data = None, dry_run = dry\<rparr>,
            add_to_blacklist s1 (action_type action))
         else
           (let approved = (response = lit ''y'' \<or> response = lit ''yes'');
                st = (if approved then APPROVED else DENIED)
            in (\<lparr>success = approved, status = status_value st,
                 message = Some (if approved then lit ''Action approved.''
                                 else lit ''Action denied.''),
                 data = None, dry_run = dry\<rparr>,
                snd (log_action s1 PERMISSION
                       (lit ''CLI '' @ (if approved then lit ''approved'' else lit ''denied'')
                          @ lit '': '' @ description action)
                       (level_value (required_level action)) (Some approved) st None None))))"

definition request_approval ::
  "PermissionManager \<Rightarrow> ActionRequest \<Rightarrow> bool \<Rightarrow> ActionResult \<times> PermissionManager" where
  "request_approval s action dry =
     (case approval_callback s of
        None \<Rightarrow> cli_approval s action dry
      | Some callback \<Rightarrow>
          (let preview = generate_preview action;
               approved = callback (description action) preview;
               s1 = s\<lparr>callback_calls := callback_calls s @ [(description action, preview)]\<rparr>;
               st = (if approved then APPROVED else DENIED)
           in (\<lparr>success = approved, status = status_value st,
                message = Some (if approved then lit ''Action approved by user.''
                                else lit ''Action denied by user.''),
                data = None, dry_run = dry\<rparr>,
               snd (log_action s1 PERMISSION
                      (lit ''User '' @ (if approved then lit ''approved'' else lit ''denied'')
                         @ lit '': '' @ description action)
                      (level_value (required_level action)) (Some approved) st None
                      (Some [(lit ''preview'', Some preview)])))))"

text \<open>The entry that \<^verbatim>\<open>check_permission\<close> writes first, read at the time \<open>now\<close>.\<close>

definition pending_entry :: "str \<Rightarrow> ActionRequest \<Rightarrow> AuditEntry" where
  "pending_entry now action =
     create now PERMISSION (lit ''Permission check: '' @ description action)
       (level_value (required_level action)) None PENDING None
       (Some [(lit ''action_type'', Some (action_type action)), (lit ''target'', target action)])"

definition check_permission ::
  "PermissionManager \<Rightarrow> ActionRequest \<Rightarrow> bool \<Rightarrow> ActionResult \<times> PermissionManager" where
  "check_permission s action dry =
     (let s1 = snd (log_action s PERMISSION (lit ''Permission check: '' @ description action)
                      (level_value (required_level action)) None PENDING None
                      (Some [(lit ''action_type'', Some (action_type action)),
                             (lit ''target'', target action)]))
      in if is_blacklisted s1 action then
           (\<lparr>success = False, status = lit ''DENIED'',
             message = Some (lit ''This action is blacklisted and cannot be executed.''),
             data = None, dry_run = dry\<rparr>,
            snd (log_action s1 PERMISSION (lit ''BLOCKED: '' @ description action)
                   (level_value (required_level action)) (Some False) DENIED
                   (Some (lit ''Blacklisted action'')) None))
         else if is_auto_approved s1 action then
           (\<lparr>success = True, status = lit ''APPROVED'',
             message = Some (lit ''Action is auto-approved.''), data = None, dry_run = dry\<rparr>,
            snd (log_action s1 PERMISSION (lit ''Auto-approved: '' @ description action)
                   (level_value (required_level action)) (Some True) APPROVED
                   (Some (lit ''Auto-approved action'')) None))
         else if required_level action = READ then
           (\<lparr>success = True, status = lit ''APPROVED'',
             message = Some (lit ''Read operations are always permitted.''), data = None,
             dry_run = dry\<rparr>, s1)
         else if required_level action = SUGGEST \<or> dry then
           (\<lparr>success = True, status = lit ''DRY_RUN'',
             message = Some (lit ''Dry-run mode - action will be previewed only.''),
             data = None, dry_run = True\<rparr>, s1)
         else request_approval s1 action dry)"

definition get_audit_log :: "PermissionManager \<Rightarrow> int \<Rightarrow> error + AuditEntry list" where
  "get_audit_log s limit = get_recent s limit"

text \<open>
  The manager once \<^verbatim>\<open>check_permission\<close> has written its first entry: the clock has
  been read once and the entry is the last line of the file.
\<close>

definition after_pending :: "PermissionManager \<Rightarrow> ActionRequest \<Rightarrow> PermissionManager" where
  "after_pending s action =
     log (s\<lparr>ticks := Suc (ticks s)\<rparr>) (pending_entry (clock s (ticks s)) action)"

section \<open>The words of the specification\<close>


text \<open>The entries among some lines, in the order of the lines.\<close>

fun entries_of :: "log_line list \<Rightarrow> AuditEntry list" where
  "entries_of [] = []"
| "entries_of (Entry_Line e # lines) = e # entries_of lines"
| "entries_of (line # lines) = entries_of lines"

text \<open>The lines that the read operations take or skip without raising.\<close>

fun is_harmless :: "log_line \<Rightarrow> bool" where
  "is_harmless (Foreign_Line t) = False"
| "is_harmless (Undecodable_Line k) = False"
| "is_harmless line = True"

section \<open>Managers and requests used as examples\<close>

definition example_time :: str where
  "example_time = lit ''2024-01-01T00:00:00''"

definition example_clock :: "nat \<Rightarrow> str" where
  "example_clock n = example_time"

text \<open>A manager with the built-in configuration, an empty log and the given console.\<close>

definition default_manager :: "str list \<Rightarrow> PermissionManager" where
  "default_manager console =
     new_manager default_auto_approve default_blacklist [] example_clock console example_lower"

text \<open>A manager whose deny-list and allow-list hold the same pattern.\<close>

definition both_lists_manager :: PermissionManager where
  "both_lists_manager =
     new_manager [lit ''format_*''] [lit ''format_*''] [] example_clock [] example_lower"

text \<open>
  A manager whose deny-list holds a pattern with a star, one with a character set and
  one meant for targets.
\<close>

definition patterns_manager :: PermissionManager where
  "patterns_manager =
     new_manager [] [lit ''delete_*'', lit ''drop_table[0-9]'', lit ''rm -rf /''] []
       example_clock [] example_lower"

definition format_request :: ActionRequest where
  "format_request =
     \<lparr>action_type = lit ''format_disk'', description = lit ''Format the disk'', target = None,
      parameters = None, required_level = ADMIN\<rparr>"

definition read_request :: ActionRequest where
  "read_request =
     \<lparr>action_type = lit ''read_file'', description = lit ''Read a file'', target = None,
      parameters = None, required_level = ADMIN\<rparr>"

definition write_request :: ActionRequest where
  "write_request =
     \<lparr>action_type = lit ''write_file'', description = lit ''Write to file'', target = None,
      parameters = None, required_level = SAFE_WRITE\<rparr>"

definition suggest_request :: ActionRequest where
  "suggest_request =
     \<lparr>action_type = lit ''rename_file'', description = lit ''Rename a file'',
      target = Some (lit ''a.txt''), parameters = None, required_level = SUGGEST\<rparr>"

definition delete_request :: ActionRequest where
  "delete_request =
     \<lparr>action_type = lit ''delete_file'', description = lit ''Remove a.txt'',
      target = Some (lit ''a.txt''), parameters = None, required_level = SAFE_WRITE\<rparr>"

definition drop_request :: ActionRequest where
  "drop_request =
     \<lparr>action_type = lit ''drop_table7'', description = lit ''Drop a table'', target = None,
      parameters = None, required_level = SYSTEM_WRITE\<rparr>"

definition wipe_request :: ActionRequest where
  "wipe_request =
     \<lparr>action_type = lit ''execute_command'', description = lit ''Clean up'',
      target = Some (lit ''sudo RM -RF / --no-preserve-root''), parameters = None,
      required_level = EXECUTE\<rparr>"

definition shell_request :: ActionRequest where
  "shell_request =
     \<lparr>action_type = lit ''execute[shell]'', description = lit ''Run a command'',
      target = Some (lit ''ls''), parameters = None, required_level = EXECUTE\<rparr>"

text \<open>An entry as the test suite logs it, and stores that hold such entries.\<close>

definition example_entry :: "str \<Rightarrow> AuditEntry" where
  "example_entry descr = create example_time READ_t descr 0 None PENDING None None"

definition two_entries_manager :: PermissionManager where
  "two_entries_manager =
     foldl log (default_manager [])
       [example_entry (lit ''Action 0''), example_entry (lit ''Action 1'')]"

text \<open>A store whose last line is the JSON text of an empty mapping.\<close>

definition foreign_line_manager :: PermissionManager where
  "foreign_line_manager =
     (default_manager [])\<lparr>log_file := Some [Entry_Line (example_entry (lit ''Action 0'')),
                                             Foreign_Line (lit ''{}'')]\<rparr>"

section \<open>Facts about strings and matching\<close>

lemma lit_append: "lit (a @ b) = lit a @ lit b"
  by (simp add: lit_def)

lemma startswith_iff: "startswith s p = (\<exists>suf. s = p @ suf)"
  by (induction s p rule: startswith.induct) auto



lemma startswith_py_in: "startswith s p \<Longrightarrow> py_in p s"
  by (cases s) (auto simp: startswith_iff)


text \<open>A name without an opening bracket matches itself as a pattern.\<close>

lemma tmatch_star: "tmatch ts name \<Longrightarrow> tmatch (STAR # ts) name"
  by (cases name) auto

lemma translate_self: "cp (CHR ''['') \<notin> set name \<Longrightarrow> tmatch (translate name) name"
proof (induction name)
  case Nil
  then show ?case by simp
next
  case (Cons c cs)
  then have ih: "tmatch (translate cs) cs" by simp
  show ?case
  proof (cases "c = cp (CHR ''*'')")
    case True
    have "tmatch (STAR # translate cs) cs" using ih by (rule tmatch_star)
    then show ?thesis using True ih
      by (auto split: list.splits token.splits)
  next
    case False
    then show ?thesis using ih Cons.prems by auto
  qed
qed

lemma fnmatch_self: "cp (CHR ''['') \<notin> set name \<Longrightarrow> fnmatch name name"
  by (simp add: fnmatch_def normcase_def translate_self)






section \<open>Facts about the logger and the steps of \<^verbatim>\<open>check_permission\<close>\<close>

lemma log_action_keeps:
  "blacklist (snd (log_action s t d l a st r m)) = blacklist s"
  "auto_approve (snd (log_action s t d l a st r m)) = auto_approve s"
  "whitelist (snd (log_action s t d l a st r m)) = whitelist s"
  "approval_callback (snd (log_action s t d l a st r m)) = approval_callback s"
  "callback_calls (snd (log_action s t d l a st r m)) = callback_calls s"
  "stdin (snd (log_action s t d l a st r m)) = stdin s"
  "clock (snd (log_action s t d l a st r m)) = clock s"
  "ticks (snd (log_action s t d l a st r m)) = Suc (ticks s)"
  "str_lower (snd (log_action s t d l a st r m)) = str_lower s"
  by (simp_all add: log_action_def log_def Let_def)

lemma log_action_file:
  "log_file (snd (log_action s t d l a st r m)) =
     Some (file_lines s @ [Entry_Line (create (clock s (ticks s)) t d l a st r m)])"
  by (simp add: log_action_def log_def Let_def file_lines_def)

lemma blacklisted_by_match:
  "pattern \<in> set patterns \<Longrightarrow> matches_pattern action pattern \<Longrightarrow>
   blacklisted_by lower patterns action"
  by (induction patterns) auto

lemma approved_by_iff:
  "approved_by patterns action = (\<exists>pattern \<in> set patterns. matches_pattern action pattern)"
  by (induction patterns) auto


lemma status_pending_entry: "status_entry (pending_entry now action) = lit ''pending''"
  by (simp add: pending_entry_def create_def)

lemma pending_log:
  "log_action s PERMISSION (lit ''Permission check: '' @ description action)
      (level_value (required_level action)) None PENDING None
      (Some [(lit ''action_type'', Some (action_type action)), (lit ''target'', target action)])
   = (pending_entry (clock s (ticks s)) action,
      log (s\<lparr>ticks := Suc (ticks s)\<rparr>) (pending_entry (clock s (ticks s)) action))"
  by (simp add: log_action_def pending_entry_def Let_def)

lemma after_pending_fields:
  "blacklist (after_pending s action) = blacklist s"
  "auto_approve (after_pending s action) = auto_approve s"
  "whitelist (after_pending s action) = whitelist s"
  "approval_callback (after_pending s action) = approval_callback s"
  "callback_calls (after_pending s action) = callback_calls s"
  "stdin (after_pending s action) = stdin s"
  "clock (after_pending s action) = clock s"
  "ticks (after_pending s action) = Suc (ticks s)"
  "str_lower (after_pending s action) = str_lower s"
  "log_file (after_pending s action) =
     Some (file_lines s @ [Entry_Line (pending_entry (clock s (ticks s)) action)])"
  "file_lines (after_pending s action) =
     file_lines s @ [Entry_Line (pending_entry (clock s (ticks s)) action)]"
  by (simp_all add: after_pending_def log_def file_lines_def)

lemma after_pending_lists:
  "is_blacklisted (after_pending s action) a = is_blacklisted s a"
  "is_auto_approved (after_pending s action) a = is_auto_approved s a"
  by (simp_all add: is_blacklisted_def is_auto_approved_def after_pending_fields)

text \<open>
  \<^verbatim>\<open>check_permission\<close> with its first step named: the lists are those of the manager
  it was called on, since logging changes neither.
\<close>

lemma check_permission_unfold:
  "check_permission s action dry =
     (let s1 = after_pending s action
      in if is_blacklisted s action then
           (\<lparr>success = False, status = lit ''DENIED'',
             message = Some (lit ''This action is blacklisted and cannot be executed.''),
             data = None, dry_run = dry\<rparr>,
            snd (log_action s1 PERMISSION (lit ''BLOCKED: '' @ description action)
                   (level_value (required_level action)) (Some False) DENIED
                   (Some (lit ''Blacklisted action'')) None))
         else if is_auto_approved s action then
           (\<lparr>success = True, status = lit ''APPROVED'',
             message = Some (lit ''Action is auto-approved.''), data = None, dry_run = dry\<rparr>,
            snd (log_action s1 PERMISSION (lit ''Auto-approved: '' @ description action)
                   (level_value (required_level action)) (Some True) APPROVED
                   (Some (lit ''Auto-approved action'')) None))
         else if required_level action = READ then
           (\<lparr>success = True, status = lit ''APPROVED'',
             message = Some (lit ''Read operations are always permitted.''), data = None,
             dry_run = dry\<rparr>, s1)
         else if required_level action = SUGGEST \<or> dry then
           (\<lparr>success = True, status = lit ''DRY_RUN'',
             message = Some (lit ''Dry-run mode - action will be previewed only.''),
             data = None, dry_run = True\<rparr>, s1)
         else request_approval s1 action dry)"
  unfolding check_permission_def pending_log snd_conv after_pending_def [symmetric]
    Let_def after_pending_lists
  by (rule refl)

lemmas example_defs =
  default_manager_def both_lists_manager_def patterns_manager_def new_manager_def
  apply_config_def default_auto_approve_def default_blacklist_def example_clock_def
  example_time_def format_request_def read_request_def write_request_def suggest_request_def
  delete_request_def drop_request_def wipe_request_def shell_request_def

lemmas matching_defs =
  is_blacklisted_def is_auto_approved_def matches_pattern_def fnmatch_def normcase_def
  example_lower_def class_end_def class_token_def close_chunks_def Let_def lit_def cp_def

section \<open>The deny-list\<close>

lemma denied_if_blacklisted:
  "is_blacklisted s action \<Longrightarrow>
   success (fst (check_permission s action dry)) = False \<and>
   status (fst (check_permission s action dry)) = lit ''DENIED''"
  by (simp add: check_permission_unfold Let_def)

text \<open>
  Claim C1.  A request whose \<^verbatim>\<open>action_type\<close> matches some pattern of the deny-list is
  refused: \<^verbatim>\<open>check_permission\<close> returns \<^verbatim>\<open>success = False\<close> and the status
  \<^verbatim>\<open>DENIED\<close>, whatever the required level, the \<^verbatim>\<open>dry_run\<close> argument, the callback,
  the console and the allow-list are.  In particular a pattern that is in both lists
  denies: the deny-list is looked at first.
\<close>

theorem blacklisted_type_denied:
  assumes "\<exists>pattern \<in> set (blacklist s). matches_pattern action pattern"
  shows "success (fst (check_permission s action dry)) = False \<and>
         status (fst (check_permission s action dry)) = lit ''DENIED''"
proof -
  from assms have "is_blacklisted s action"
    by (auto simp: is_blacklisted_def intro: blacklisted_by_match)
  then show ?thesis
    by (simp add: check_permission_unfold Let_def)
qed

text \<open>
  The pattern \<^verbatim>\<open>format_*\<close> is in both lists and the request is at the \<^verbatim>\<open>ADMIN\<close>
  level: it is denied.
\<close>

theorem blacklisted_type_denied_witness:
  "(\<exists>pattern \<in> set (blacklist both_lists_manager). matches_pattern format_request pattern) \<and>
   (\<exists>pattern \<in> set (auto_approve both_lists_manager). matches_pattern format_request pattern) \<and>
   required_level format_request = ADMIN \<and>
   success (fst (check_permission both_lists_manager format_request False)) = False \<and>
   status (fst (check_permission both_lists_manager format_request False)) = lit ''DENIED''"
proof -
  have deny: "\<exists>pattern \<in> set (blacklist both_lists_manager).
      matches_pattern format_request pattern"
    by (simp add: example_defs matching_defs)
  have allow: "\<exists>pattern \<in> set (auto_approve both_lists_manager).
      matches_pattern format_request pattern"
    by (simp add: example_defs matching_defs)
  have level: "required_level format_request = ADMIN"
    by (simp add: format_request_def)
  from blacklisted_type_denied [OF deny, of False] deny allow level show ?thesis by blast
qed



section \<open>The allow-list\<close>

text \<open>
  Claim C2.  A request that is not blacklisted and whose \<^verbatim>\<open>action_type\<close> matches
  some pattern of the allow-list is approved whatever its required level is:
  \<^verbatim>\<open>check_permission\<close> returns \<^verbatim>\<open>success = True\<close> and the status \<^verbatim>\<open>APPROVED\<close>, and
  the log gains two entries: the pending one, and an entry of type \<^verbatim>\<open>permission\<close>
  and status \<^verbatim>\<open>approved\<close> with \<^verbatim>\<open>user_approved = True\<close>, the level of the request
  and the result \<^verbatim>\<open>Auto-approved action\<close>.  The approval workflow is not entered: the
  callback is not called and no line of the console is read.
\<close>

theorem auto_approved_succeeds:
  assumes "\<not> is_blacklisted s action"
    and "\<exists>pattern \<in> set (auto_approve s). matches_pattern action pattern"
  shows "success (fst (check_permission s action dry)) \<and>
         status (fst (check_permission s action dry)) = lit ''APPROVED'' \<and>
         log_file (snd (check_permission s action dry)) =
           Some (file_lines s @
                 [Entry_Line
                    \<lparr>timestamp = clock s (ticks s), action_type_entry = lit ''permission'',
                     action_description = lit ''Permission check: '' @ description action,
                     permission_level = level_value (required_level action),
                     user_approved = None, status_entry = lit ''pending'', result = None,
                     metadata = [(lit ''action_type'', Some (action_type action)),
                                 (lit ''target'', target action)]\<rparr>,
                  Entry_Line
                    \<lparr>timestamp = clock s (Suc (ticks s)), action_type_entry = lit ''permission'',
                     action_description = lit ''Auto-approved: '' @ description action,
                     permission_level = level_value (required_level action),
                     user_approved = Some True, status_entry = lit ''approved'',
                     result = Some (lit ''Auto-approved action''), metadata = []\<rparr>]) \<and>
         callback_calls (snd (check_permission s action dry)) = callback_calls s \<and>
         stdin (snd (check_permission s action dry)) = stdin s"
proof -
  from assms(2) have "is_auto_approved s action"
    by (simp add: is_auto_approved_def approved_by_iff)
  with assms(1) show ?thesis
    by (simp add: check_permission_unfold Let_def log_action_file log_action_keeps
        after_pending_fields pending_entry_def create_def)
qed

text \<open>\<^verbatim>\<open>read_file\<close> is on the built-in allow-list; the request is at the \<^verbatim>\<open>ADMIN\<close> level.\<close>

theorem auto_approved_succeeds_witness:
  "\<not> is_blacklisted (default_manager [lit ''no'']) read_request \<and>
   (\<exists>pattern \<in> set (auto_approve (default_manager [lit ''no''])).
      matches_pattern read_request pattern) \<and>
   required_level read_request = ADMIN \<and>
   success (fst (check_permission (default_manager [lit ''no'']) read_request False)) \<and>
   status (fst (check_permission (default_manager [lit ''no'']) read_request False))
     = lit ''APPROVED'' \<and>
   log_file (snd (check_permission (default_manager [lit ''no'']) read_request False)) =
     Some [Entry_Line
             \<lparr>timestamp = example_time, action_type_entry = lit ''permission'',
              action_description = lit ''Permission check: Read a file'',
              permission_level = 5, user_approved = None, status_entry = lit ''pending'',
              result = None,
              metadata = [(lit ''action_type'', Some (lit ''read_file'')),
                          (lit ''target'', None)]\<rparr>,
           Entry_Line
             \<lparr>timestamp = example_time, action_type_entry = lit ''permission'',
              action_description = lit ''Auto-approved: Read a file'',
              permission_level = 5, user_approved = Some True,
              status_entry = lit ''approved'',
              result = Some (lit ''Auto-approved action''), metadata = []\<rparr>] \<and>
   stdin (snd (check_permission (default_manager [lit ''no'']) read_request False))
     = [lit ''no'']"
proof -
  have 1: "\<not> is_blacklisted (default_manager [lit ''no'']) read_request"
    by (simp add: example_defs matching_defs)
  have 2: "\<exists>pattern \<in> set (auto_approve (default_manager [lit ''no''])).
      matches_pattern read_request pattern"
    by (simp add: example_defs matching_defs)
  have 3: "required_level read_request = ADMIN" "description read_request = lit ''Read a file''"
    "action_type read_request = lit ''read_file''" "target read_request = None"
    by (simp_all add: read_request_def)
  have 4: "stdin (default_manager [lit ''no'']) = [lit ''no'']"
    "file_lines (default_manager [lit ''no'']) = []"
    "clock (default_manager [lit ''no'']) = example_clock"
    by (simp_all add: default_manager_def new_manager_def apply_config_def file_lines_def)
  from auto_approved_succeeds [OF 1 2, of False] 1 2 3 4 show ?thesis
    by (simp add: example_clock_def lit_append [symmetric])
qed

section \<open>Dry runs\<close>

text \<open>
  Claim C5.  A request that matches neither list and is not at the \<^verbatim>\<open>READ\<close> level,
  and that is at the \<^verbatim>\<open>SUGGEST\<close> level or comes with \<^verbatim>\<open>dry_run = True\<close>, gets
  \<^verbatim>\<open>success = True\<close> and the status \<^verbatim>\<open>DRY_RUN\<close>.  The approval callback is not
  called and no line of the console is read; the log gains the pending entry only.
\<close>

theorem dry_run_skips_approval:
  assumes "\<not> is_blacklisted s action" and "\<not> is_auto_approved s action"
    and "required_level action \<noteq> READ"
    and "required_level action = SUGGEST \<or> dry"
  shows "success (fst (check_permission s action dry)) \<and>
         status (fst (check_permission s action dry)) = lit ''DRY_RUN'' \<and>
         callback_calls (snd (check_permission s action dry)) = callback_calls s \<and>
         stdin (snd (check_permission s action dry)) = stdin s \<and>
         log_file (snd (check_permission s action dry)) =
           Some (file_lines s @ [Entry_Line (pending_entry (clock s (ticks s)) action)])"
  using assms by (auto simp add: check_permission_unfold Let_def after_pending_fields)

text \<open>
  The request of the test suite, at the \<^verbatim>\<open>SAFE_WRITE\<close> level with \<^verbatim>\<open>dry_run = True\<close>,
  on a manager whose callback would refuse and whose console would answer \<^verbatim>\<open>never\<close>.
\<close>

theorem dry_run_skips_approval_witness:
  "\<not> is_blacklisted (set_approval_callback (default_manager [lit ''never'']) (\<lambda>d p. False))
       write_request \<and>
   \<not> is_auto_approved (set_approval_callback (default_manager [lit ''never'']) (\<lambda>d p. False))
       write_request \<and>
   required_level write_request \<noteq> READ \<and>
   status (fst (check_permission
      (set_approval_callback (default_manager [lit ''never'']) (\<lambda>d p. False))
      write_request True)) = lit ''DRY_RUN'' \<and>
   callback_calls (snd (check_permission
      (set_approval_callback (default_manager [lit ''never'']) (\<lambda>d p. False))
      write_request True)) = [] \<and>
   stdin (snd (check_permission
      (set_approval_callback (default_manager [lit ''never'']) (\<lambda>d p. False))
      write_request True)) = [lit ''never'']"
proof -
  let ?s = "set_approval_callback (default_manager [lit ''never'']) (\<lambda>d p. False)"
  have 1: "\<not> is_blacklisted ?s write_request"
    by (simp add: set_approval_callback_def example_defs matching_defs)
  have 2: "\<not> is_auto_approved ?s write_request"
    by (simp add: set_approval_callback_def example_defs matching_defs)
  have 3: "required_level write_request \<noteq> READ"
    by (simp add: write_request_def)
  have 4: "callback_calls ?s = []" "stdin ?s = [lit ''never'']"
    by (simp_all add: set_approval_callback_def default_manager_def new_manager_def
        apply_config_def)
  from dry_run_skips_approval [OF 1 2 3, of True] 1 2 3 4 show ?thesis by simp
qed

lemma lit_eq_iff: "lit a = lit b \<longleftrightarrow> a = b"
  by (simp add: lit_def cp_def inj_map_eq_map inj_on_def)

lemma cli_approval_dry:
  "dry_run (fst (cli_approval s action dry)) = dry"
  "status (fst (cli_approval s action dry)) \<noteq> lit ''DRY_RUN''"
  by (simp_all add: cli_approval_def Let_def lit_eq_iff split: prod.splits)

lemma request_approval_dry:
  "dry_run (fst (request_approval s action dry)) = dry"
  "status (fst (request_approval s action dry)) \<noteq> lit ''DRY_RUN''"
  by (simp_all add: request_approval_def Let_def cli_approval_dry lit_eq_iff
      split: option.splits)

text \<open>
  Claim C10.  When \<^verbatim>\<open>check_permission\<close> returns the status \<^verbatim>\<open>DRY_RUN\<close> the field
  \<^verbatim>\<open>dry_run\<close> of the result is true, also when the caller passed \<^verbatim>\<open>dry_run = False\<close>
  and the request was at the \<^verbatim>\<open>SUGGEST\<close> level; with any other status the field is
  the argument the caller passed.
\<close>

theorem dry_run_flag:
  "(status (fst (check_permission s action dry)) = lit ''DRY_RUN'' \<longrightarrow>
      dry_run (fst (check_permission s action dry))) \<and>
   (status (fst (check_permission s action dry)) \<noteq> lit ''DRY_RUN'' \<longrightarrow>
      dry_run (fst (check_permission s action dry)) = dry)"
  by (simp add: check_permission_unfold Let_def request_approval_dry lit_eq_iff)

text \<open>
  A \<^verbatim>\<open>SUGGEST\<close> request with \<^verbatim>\<open>dry_run = False\<close> comes back with \<^verbatim>\<open>dry_run = True\<close>;
  a denied one with \<^verbatim>\<open>dry_run = True\<close> keeps the caller's value.
\<close>

theorem dry_run_flag_witness:
  "status (fst (check_permission (default_manager []) suggest_request False))
     = lit ''DRY_RUN'' \<and>
   dry_run (fst (check_permission (default_manager []) suggest_request False)) \<and>
   status (fst (check_permission both_lists_manager format_request True))
     \<noteq> lit ''DRY_RUN'' \<and>
   dry_run (fst (check_permission both_lists_manager format_request True)) = True"
proof -
  have free: "\<not> is_blacklisted (default_manager []) suggest_request"
    "\<not> is_auto_approved (default_manager []) suggest_request"
    "required_level suggest_request = SUGGEST"
    by (simp_all add: example_defs matching_defs)
  have caught: "is_blacklisted both_lists_manager format_request"
    by (simp add: example_defs matching_defs)
  have 1: "status (fst (check_permission (default_manager []) suggest_request False))
      = lit ''DRY_RUN''"
    using free by (simp add: check_permission_unfold Let_def)
  have 2: "status (fst (check_permission both_lists_manager format_request True))
      \<noteq> lit ''DRY_RUN''"
    using caught by (simp add: check_permission_unfold Let_def lit_eq_iff)
  from 1 2 dry_run_flag [of "default_manager []" suggest_request False]
    dry_run_flag [of both_lists_manager format_request True]
  show ?thesis by blast
qed

section \<open>Intent is logged first\<close>

lemma add_to_blacklist_file:
  assumes "log_file s = Some ls"
  shows "\<exists>rest. log_file (add_to_blacklist s pattern) = Some (ls @ rest) \<and> length rest \<le> 1 \<and>
           (\<forall>line \<in> set rest. \<exists>e. line = Entry_Line e \<and> status_entry e = lit ''executed'')"
  using assms by (simp add: add_to_blacklist_def log_action_file file_lines_def create_def)

lemma read_input_file: "log_file (snd (read_input s)) = log_file s"
  by (simp add: read_input_def split: list.splits)

lemma cli_approval_file:
  assumes "log_file s = Some ls"
  shows "\<exists>rest. log_file (snd (cli_approval s action dry)) = Some (ls @ rest) \<and>
           length rest \<le> 1 \<and>
           (\<forall>line \<in> set rest. \<exists>e. line = Entry_Line e \<and>
               status_entry e \<in> {lit ''approved'', lit ''denied'', lit ''executed''})"
proof -
  obtain typed s1 where r: "read_input s = (typed, s1)" by (cases "read_input s")
  then have f: "log_file s1 = Some ls" using read_input_file [of s] assms by simp
  from add_to_blacklist_file [OF f, of "action_type action"]
  obtain rest where "log_file (add_to_blacklist s1 (action_type action)) = Some (ls @ rest)"
    "length rest \<le> 1"
    "\<forall>line \<in> set rest. \<exists>e. line = Entry_Line e \<and> status_entry e = lit ''executed''"
    by blast
  then show ?thesis using r f
    by (auto simp add: cli_approval_def Let_def log_action_file file_lines_def create_def)
qed

lemma request_approval_file:
  assumes "log_file s = Some ls"
  shows "\<exists>rest. log_file (snd (request_approval s action dry)) = Some (ls @ rest) \<and>
           length rest \<le> 1 \<and>
           (\<forall>line \<in> set rest. \<exists>e. line = Entry_Line e \<and>
               status_entry e \<in> {lit ''approved'', lit ''denied'', lit ''executed''})"
proof (cases "approval_callback s")
  case None
  then show ?thesis using cli_approval_file [OF assms] by (simp add: request_approval_def)
next
  case (Some callback)
  then show ?thesis using assms
    by (simp add: request_approval_def Let_def log_action_file file_lines_def create_def)
qed

text \<open>
  Claim C6.  Every call of \<^verbatim>\<open>check_permission\<close> appends an entry of status
  \<^verbatim>\<open>pending\<close> to the log, for every request and before anything else: the entry
  depends on the request and the clock only, not on the lists, and whatever else the
  call appends (at most one entry, of status \<^verbatim>\<open>approved\<close>, \<^verbatim>\<open>denied\<close> or
  \<^verbatim>\<open>executed\<close>) comes after it.
\<close>

theorem pending_logged_first:
  "\<exists>rest. log_file (snd (check_permission s action dry)) =
            Some (file_lines s @ Entry_Line (pending_entry (clock s (ticks s)) action) # rest) \<and>
          status_entry (pending_entry (clock s (ticks s)) action) = lit ''pending'' \<and>
          length rest \<le> 1 \<and>
          (\<forall>line \<in> set rest. \<exists>e. line = Entry_Line e \<and>
              status_entry e \<in> {lit ''approved'', lit ''denied'', lit ''executed''})"
proof -
  let ?p = "Entry_Line (pending_entry (clock s (ticks s)) action)"
  let ?s1 = "after_pending s action"
  have f: "log_file ?s1 = Some (file_lines s @ [?p])" by (simp add: after_pending_fields)
  from request_approval_file [OF f, of action dry]
  obtain rest
    where "log_file (snd (request_approval ?s1 action dry)) = Some ((file_lines s @ [?p]) @ rest)"
      "length rest \<le> 1"
      "\<forall>line \<in> set rest. \<exists>e. line = Entry_Line e \<and>
          status_entry e \<in> {lit ''approved'', lit ''denied'', lit ''executed''}"
    by blast
  then show ?thesis
    by (auto simp add: check_permission_unfold Let_def log_action_file after_pending_fields
        status_pending_entry create_def)
qed

text \<open>The denied request: the log holds the pending entry, then the denial.\<close>

theorem pending_logged_first_witness:
  "log_file (snd (check_permission both_lists_manager format_request False)) =
     Some [Entry_Line (pending_entry example_time format_request),
           Entry_Line (create example_time PERMISSION (lit ''BLOCKED: Format the disk'') 5
              (Some False) DENIED (Some (lit ''Blacklisted action'')) None)] \<and>
   status_entry (pending_entry example_time format_request) = lit ''pending'' \<and>
   status_entry (create example_time PERMISSION (lit ''BLOCKED: Format the disk'') 5
      (Some False) DENIED (Some (lit ''Blacklisted action'')) None)
     \<in> {lit ''approved'', lit ''denied'', lit ''executed''}"
proof -
  let ?denial = "create example_time PERMISSION (lit ''BLOCKED: Format the disk'') 5
      (Some False) DENIED (Some (lit ''Blacklisted action'')) None"
  have caught: "is_blacklisted both_lists_manager format_request"
    by (simp add: example_defs matching_defs)
  have start: "file_lines both_lists_manager = []"
    "clock both_lists_manager (ticks both_lists_manager) = example_time"
    "clock both_lists_manager (Suc (ticks both_lists_manager)) = example_time"
    by (simp_all add: both_lists_manager_def new_manager_def apply_config_def file_lines_def
        example_clock_def)
  have request: "description format_request = lit ''Format the disk''"
    "required_level format_request = ADMIN"
    by (simp_all add: format_request_def)
  have logged: "log_file (snd (check_permission both_lists_manager format_request False)) =
      Some [Entry_Line (pending_entry example_time format_request), Entry_Line ?denial]"
    using caught start request
    by (simp add: check_permission_unfold Let_def log_action_file after_pending_fields
        lit_append [symmetric])
  from pending_logged_first [of both_lists_manager format_request False]
  obtain rest
    where first: "log_file (snd (check_permission both_lists_manager format_request False)) =
        Some (Entry_Line (pending_entry example_time format_request) # rest)"
      and pending: "status_entry (pending_entry example_time format_request) = lit ''pending''"
      and others: "\<forall>line \<in> set rest. \<exists>e. line = Entry_Line e \<and>
          status_entry e \<in> {lit ''approved'', lit ''denied'', lit ''executed''}"
    unfolding start by auto
  from first logged have "rest = [Entry_Line ?denial]" by simp
  with others have "status_entry ?denial \<in> {lit ''approved'', lit ''denied'', lit ''executed''}"
    by simp
  with logged pending show ?thesis by simp
qed

section \<open>Reading the store\<close>

lemma entries_of_append: "entries_of (xs @ ys) = entries_of xs @ entries_of ys"
  by (induction xs rule: entries_of.induct) auto

lemma entries_of_map_Entry: "entries_of (map Entry_Line es) = es"
  by (induction es) auto

lemma readlines_harmless:
  "\<forall>l \<in> set ls. is_harmless l \<Longrightarrow> readlines ls = Inr ls"
proof -
  assume "\<forall>l \<in> set ls. is_harmless l"
  then have "\<not> (\<exists>l \<in> set ls. is_undecodable l)"
    by (auto elim!: is_undecodable.elims)
  then show ?thesis by (simp add: readlines_def)
qed

lemma handed_out_harmless:
  "\<forall>l \<in> set ls. is_harmless l \<Longrightarrow> handed_out ls = (ls, False)"
proof -
  assume "\<forall>l \<in> set ls. is_harmless l"
  then have "\<forall>l \<in> set ls. \<not> is_undecodable l"
    by (auto elim!: is_undecodable.elims)
  then have none: "dropWhile (\<lambda>line. \<not> is_undecodable line) ls = []"
    by simp
  show ?thesis unfolding handed_out_def Let_def none by simp
qed

lemma recent_scan_entries:
  "\<forall>l \<in> set ls. is_harmless l \<Longrightarrow> recent_scan ls acc = Inr (acc @ entries_of ls)"
proof (induction ls arbitrary: acc)
  case Nil
  then show ?case by simp
next
  case (Cons l ls)
  then show ?case by (cases l) auto
qed

lemma recent_scan_length:
  "recent_scan ls acc = Inr es \<Longrightarrow> length es \<le> length acc + length ls"
proof (induction ls arbitrary: acc)
  case Nil
  then show ?case by simp
next
  case (Cons l ls)
  show ?case
  proof (cases l)
    case Blank_Line
    with Cons.prems have "recent_scan ls acc = Inr es" by simp
    from Cons.IH [OF this] show ?thesis by simp
  next
    case (Entry_Line e)
    with Cons.prems have "recent_scan ls (acc @ [e]) = Inr es" by simp
    from Cons.IH [OF this] show ?thesis by simp
  next
    case (Garbled_Line t)
    with Cons.prems have "recent_scan ls acc = Inr es" by simp
    from Cons.IH [OF this] show ?thesis by simp
  next
    case (Foreign_Line t)
    with Cons.prems show ?thesis by simp
  next
    case (Undecodable_Line k)
    with Cons.prems show ?thesis by simp
  qed
qed

lemma length_slice_from_last: "0 < n \<Longrightarrow> int (length (slice_from xs (- n))) \<le> n"
  by (auto simp: slice_from_def)

lemma slice_from_last: "0 < n \<Longrightarrow> slice_from xs (- n) = drop (length xs - nat n) xs"
  by (auto simp: slice_from_def nat_diff_distrib' nat_add_distrib
      intro: arg_cong2 [where f = drop])

text \<open>With a positive limit \<^verbatim>\<open>get_recent\<close> returns at most that many entries.\<close>

lemma get_recent_at_most:
  assumes "0 < n" and "get_recent s n = Inr es"
  shows "int (length es) \<le> n"
proof (cases "log_file s")
  case None
  with assms show ?thesis by (simp add: get_recent_def)
next
  case (Some lines)
  with assms have "recent_scan (rev (slice_from lines (- n))) [] = Inr es"
    by (simp add: get_recent_def readlines_def split: if_splits)
  from recent_scan_length [OF this] length_slice_from_last [OF assms(1), of lines]
  show ?thesis by simp
qed

lemma log_file_foldl_log:
  "log_file s = Some ls \<Longrightarrow> log_file (foldl log s es) = Some (ls @ map Entry_Line es)"
  by (induction es arbitrary: s ls) (simp_all add: log_def file_lines_def)

text \<open>On a store of entries and a positive limit: the last entries, newest first.\<close>

lemma get_recent_entries:
  assumes "log_file s = Some (map Entry_Line es)" and "0 < n"
  shows "get_recent s n = Inr (take (nat n) (rev es))"
proof -
  have read: "readlines (map Entry_Line es) = Inr (map Entry_Line es)"
    by (rule readlines_harmless) auto
  have "slice_from (map Entry_Line es) (- n) = map Entry_Line (drop (length es - nat n) es)"
    using assms(2) by (simp add: slice_from_last drop_map)
  then have "get_recent s n = recent_scan (map Entry_Line (rev (drop (length es - nat n) es))) []"
    using assms(1) read by (simp add: get_recent_def rev_map)
  also have "\<dots> = Inr (rev (drop (length es - nat n) es))"
    by (subst recent_scan_entries) (auto simp: entries_of_map_Entry)
  finally show ?thesis by (simp add: take_rev)
qed

text \<open>
  The scenario of the specification: 150 entries appended to an empty store, then
  \<^verbatim>\<open>get_recent(100)\<close>: the last 100 entries, in reverse order of appending.
\<close>

lemma recent_100_of_150:
  assumes "log_file s = Some []" and "length es = 150"
  shows "get_recent (foldl log s es) 100 = Inr (rev (drop 50 es)) \<and>
         length (rev (drop 50 es)) = 100"
proof -
  have "log_file (foldl log s es) = Some (map Entry_Line es)"
    using log_file_foldl_log [OF assms(1), of es] by simp
  from get_recent_entries [OF this, of 100] assms(2) show ?thesis
    by (simp add: take_rev)
qed

text \<open>
  Claim C7, at the limit 0.  The claim bounds the number of entries by the limit for
  every limit.  \<^verbatim>\<open>lines[-limit:]\<close> is the whole list when the limit is 0, so that
  \<^verbatim>\<open>get_recent(0)\<close> on a store of two entries returns both.
\<close>

theorem get_recent_zero_returns_all:
  "get_recent two_entries_manager 0 =
     Inr [example_entry (lit ''Action 1''), example_entry (lit ''Action 0'')]"
  by (simp add: two_entries_manager_def default_manager_def new_manager_def apply_config_def
      log_def file_lines_def get_recent_def readlines_def slice_from_def)

lemma date_scan_entries:
  "\<forall>l \<in> set ls. is_harmless l \<Longrightarrow>
   date_scan d False ls acc =
     Inr (acc @ filter (\<lambda>e. startswith (timestamp e) d) (entries_of ls))"
proof (induction ls arbitrary: acc)
  case Nil
  then show ?case by simp
next
  case (Cons l ls)
  then show ?case by (cases l) (auto simp: startswith_py_in)
qed

lemma limit_scan_entries:
  "\<forall>l \<in> set ls. is_harmless l \<Longrightarrow>
   limit_scan keep n False ls acc =
     Inr (if n \<le> int (length acc) then acc
          else take (nat n) (acc @ filter keep (entries_of ls)))"
proof (induction ls arbitrary: acc)
  case Nil
  then show ?case by simp
next
  case (Cons l ls)
  show ?case
  proof (cases "n \<le> int (length acc)")
    case True
    then show ?thesis by simp
  next
    case False
    then have le: "length acc < nat n" by linarith
    from Cons.prems have rest: "\<forall>l \<in> set ls. is_harmless l" by simp
    show ?thesis
    proof (cases l)
      case (Entry_Line e)
      show ?thesis
      proof (cases "keep e")
        case True
        have "limit_scan keep n False (l # ls) acc = limit_scan keep n False ls (acc @ [e])"
          using False Entry_Line True by simp
        also have "\<dots> = Inr (if n \<le> int (length (acc @ [e])) then acc @ [e]
            else take (nat n) ((acc @ [e]) @ filter keep (entries_of ls)))"
          by (rule Cons.IH [OF rest])
        also have "\<dots> = Inr (take (nat n) (acc @ filter keep (entries_of (l # ls))))"
          using le Entry_Line True by (auto simp: take_Cons')
        finally show ?thesis using False by simp
      next
        case no: False
        then show ?thesis using False Entry_Line Cons.IH [OF rest, of acc] by simp
      qed
    next
      case Blank_Line
      then show ?thesis using False Cons.IH [OF rest, of acc] by simp
    next
      case (Garbled_Line t)
      then show ?thesis using False Cons.IH [OF rest, of acc] by simp
    next
      case (Foreign_Line t)
      with Cons.prems show ?thesis by simp
    next
      case (Undecodable_Line k)
      with Cons.prems show ?thesis by simp
    qed
  qed
qed

text \<open>
  What the read operations do right: on a store whose lines are blank, entries or text
  that is not JSON, each of them returns what the entries give, the other lines being
  skipped; without a file each of them returns the empty list.
\<close>

lemma reads_skip_garbled_lines:
  assumes "log_file s = Some lines" and "\<forall>l \<in> set lines. is_harmless l"
  shows "get_recent s n = Inr (entries_of (rev (slice_from lines (- n))))"
    and "get_by_date s d = Inr (filter (\<lambda>e. startswith (timestamp e) d) (entries_of lines))"
    and "get_by_action_type s t n =
      Inr (take (nat n) (filter (\<lambda>e. action_type_entry e = type_value t) (entries_of lines)))"
    and "get_denied_actions s n =
      Inr (take (nat n) (filter (\<lambda>e. status_entry e = lit ''denied'') (entries_of lines)))"
proof -
  have "\<forall>l \<in> set (rev (slice_from lines (- n))). is_harmless l"
    using assms(2) by (auto simp: slice_from_def dest: in_set_dropD)
  then show "get_recent s n = Inr (entries_of (rev (slice_from lines (- n))))"
    using assms by (simp add: get_recent_def readlines_harmless recent_scan_entries)
  show "get_by_date s d = Inr (filter (\<lambda>e. startswith (timestamp e) d) (entries_of lines))"
    using assms by (simp add: get_by_date_def handed_out_harmless date_scan_entries)
  show "get_by_action_type s t n =
      Inr (take (nat n) (filter (\<lambda>e. action_type_entry e = type_value t) (entries_of lines)))"
    using assms by (simp add: get_by_action_type_def handed_out_harmless limit_scan_entries)
  show "get_denied_actions s n =
      Inr (take (nat n) (filter (\<lambda>e. status_entry e = lit ''denied'') (entries_of lines)))"
    using assms by (simp add: get_denied_actions_def handed_out_harmless limit_scan_entries)
qed

lemma reads_without_file:
  assumes "log_file s = None"
  shows "get_recent s n = Inr []" and "get_by_date s d = Inr []"
    and "get_by_action_type s t n = Inr []" and "get_denied_actions s n = Inr []"
  using assms
  by (simp_all add: get_recent_def get_by_date_def get_by_action_type_def
      get_denied_actions_def)

text \<open>A line that is not UTF-8 makes \<^verbatim>\<open>get_recent\<close> raise, wherever it is in the file.\<close>

lemma get_recent_undecodable:
  assumes "log_file s = Some lines" and "Undecodable_Line k \<in> set lines"
  shows "get_recent s n = Inl UnicodeDecodeError"
proof -
  from assms(2) have "\<exists>line \<in> set lines. is_undecodable line"
    by (intro bexI [of _ "Undecodable_Line k"]) simp_all
  then show ?thesis using assms(1) by (simp add: get_recent_def readlines_def)
qed

text \<open>
  Claim C8, at a store whose last line is JSON but not an entry.  The line \<^verbatim>\<open>{}\<close>
  fails to parse as an entry: \<^verbatim>\<open>json.loads\<close> accepts it and \<^verbatim>\<open>cls(**data)\<close> raises
  \<^verbatim>\<open>TypeError\<close>.  The read operations catch \<^verbatim>\<open>json.JSONDecodeError\<close> only: instead
  of skipping the line, \<^verbatim>\<open>get_recent\<close>, \<^verbatim>\<open>get_by_action_type\<close> and
  \<^verbatim>\<open>get_denied_actions\<close> fail, and the entry written before the line is not returned.
\<close>

theorem foreign_line_fails_reads:
  "get_recent foreign_line_manager 10 = Inl TypeError \<and>
   get_by_action_type foreign_line_manager READ_t 10 = Inl TypeError \<and>
   get_denied_actions foreign_line_manager 10 = Inl TypeError"
  by (simp add: foreign_line_manager_def get_recent_def get_by_action_type_def
      get_denied_actions_def readlines_def handed_out_def slice_from_def example_entry_def
      create_def lit_def cp_def)

section \<open>Changing the policy\<close>

text \<open>
  Claim C9, as the code has it.  \<^verbatim>\<open>add_to_whitelist\<close> records the pattern and appends
  an entry of status \<^verbatim>\<open>executed\<close> whose permission level is the number of the level it
  was given.  \<^verbatim>\<open>add_to_blacklist\<close> appends a pattern that is not yet on the deny-list,
  with an entry of status \<^verbatim>\<open>executed\<close> and permission level 5, the number of
  \<^verbatim>\<open>ADMIN\<close>; it leaves the manager and the log as they are when the pattern is there
  already, so that adding twice is adding once.  \<^verbatim>\<open>remove_from_blacklist\<close> returns
  \<^verbatim>\<open>True\<close> when the pattern is on the deny-list, takes its first occurrence out and
  appends an entry of status \<^verbatim>\<open>executed\<close> and permission level 5; otherwise it returns
  \<^verbatim>\<open>False\<close> and changes nothing.
\<close>

theorem policy_mutations_logged:
  "whitelist (add_to_whitelist s p level) = (whitelist s)(p \<mapsto> level) \<and>
   log_file (add_to_whitelist s p level) =
     Some (file_lines s @
           [Entry_Line
              \<lparr>timestamp = clock s (ticks s), action_type_entry = lit ''permission'',
               action_description = lit ''Added to whitelist: '' @ p,
               permission_level = level_value level, user_approved = None,
               status_entry = lit ''executed'', result = None, metadata = []\<rparr>]) \<and>
   level_value ADMIN = 5 \<and>
   (q \<notin> set (blacklist s) \<longrightarrow>
      blacklist (add_to_blacklist s q) = blacklist s @ [q] \<and>
      log_file (add_to_blacklist s q) =
        Some (file_lines s @
              [Entry_Line
                 \<lparr>timestamp = clock s (ticks s), action_type_entry = lit ''permission'',
                  action_description = lit ''Added to blacklist: '' @ q,
                  permission_level = 5, user_approved = None,
                  status_entry = lit ''executed'', result = None, metadata = []\<rparr>])) \<and>
   (q \<in> set (blacklist s) \<longrightarrow> add_to_blacklist s q = s) \<and>
   add_to_blacklist (add_to_blacklist s q) q = add_to_blacklist s q \<and>
   (r \<in> set (blacklist s) \<longrightarrow>
      fst (remove_from_blacklist s r) = True \<and>
      blacklist (snd (remove_from_blacklist s r)) = remove1 r (blacklist s) \<and>
      log_file (snd (remove_from_blacklist s r)) =
        Some (file_lines s @
              [Entry_Line
                 \<lparr>timestamp = clock s (ticks s), action_type_entry = lit ''permission'',
                  action_description = lit ''Removed from blacklist: '' @ r,
                  permission_level = 5, user_approved = None,
                  status_entry = lit ''executed'', result = None, metadata = []\<rparr>])) \<and>
   (r \<notin> set (blacklist s) \<longrightarrow> remove_from_blacklist s r = (False, s))"
  by (simp add: add_to_whitelist_def add_to_blacklist_def remove_from_blacklist_def
      log_action_file log_action_keeps file_lines_def create_def)

text \<open>
  On the built-in deny-list: a new pattern is appended and logged at level 5,
  \<^verbatim>\<open>format_disk\<close> is there already and is removed with the answer \<^verbatim>\<open>True\<close>; a pattern
  whitelisted at \<^verbatim>\<open>SYSTEM_WRITE\<close> is logged at level 3.
\<close>

theorem policy_mutations_logged_witness:
  "lit ''dangerous_action'' \<notin> set (blacklist (default_manager [])) \<and>
   blacklist (add_to_blacklist (default_manager []) (lit ''dangerous_action'')) =
     default_blacklist @ [lit ''dangerous_action''] \<and>
   map permission_level
     (entries_of (file_lines (add_to_blacklist (default_manager []) (lit ''dangerous_action''))))
     = [5] \<and>
   map permission_level
     (entries_of (file_lines (add_to_whitelist (default_manager []) (lit ''edit_*'') SYSTEM_WRITE)))
     = [3] \<and>
   map status_entry
     (entries_of (file_lines (add_to_whitelist (default_manager []) (lit ''edit_*'') SYSTEM_WRITE)))
     = [lit ''executed''] \<and>
   lit ''format_disk'' \<in> set (blacklist (default_manager [])) \<and>
   add_to_blacklist (default_manager []) (lit ''format_disk'') = default_manager [] \<and>
   fst (remove_from_blacklist (default_manager []) (lit ''format_disk'')) = True \<and>
   blacklist (snd (remove_from_blacklist (default_manager []) (lit ''format_disk''))) =
     [lit ''rm -rf /'', lit ''rm -rf /*'', lit ''del /f /s /q *'', lit ''format c:''] \<and>
   remove_from_blacklist (default_manager []) (lit ''dangerous_action'')
     = (False, default_manager [])"
proof -
  have new: "lit ''dangerous_action'' \<notin> set (blacklist (default_manager []))"
    by (simp add: example_defs lit_eq_iff)
  have old: "lit ''format_disk'' \<in> set (blacklist (default_manager []))"
    by (simp add: example_defs)
  have lists: "blacklist (default_manager []) = default_blacklist"
    "remove1 (lit ''format_disk'') default_blacklist =
       [lit ''rm -rf /'', lit ''rm -rf /*'', lit ''del /f /s /q *'', lit ''format c:'']"
    "file_lines (default_manager []) = []"
    by (simp_all add: example_defs file_lines_def lit_eq_iff)
  from policy_mutations_logged
         [where s = "default_manager []" and q = "lit ''dangerous_action''"
            and r = "lit ''format_disk''" and p = "lit ''edit_*''" and level = SYSTEM_WRITE]
       policy_mutations_logged
         [where s = "default_manager []" and q = "lit ''format_disk''"
            and r = "lit ''dangerous_action''" and p = "lit ''edit_*''"
            and level = SYSTEM_WRITE]
       new old lists
  show ?thesis by (simp add: file_lines_def)
qed

text \<open>
  Claim C9, as it is written, fails for \<^verbatim>\<open>add_to_whitelist\<close>: the one entry it appends
  for a pattern whitelisted at \<^verbatim>\<open>SAFE_WRITE\<close> has the permission level 2, not the
  number of \<^verbatim>\<open>ADMIN\<close>.
\<close>

theorem whitelist_entry_not_admin:
  "log_file (add_to_whitelist (default_manager []) (lit ''safe_action'') SAFE_WRITE) =
     Some [Entry_Line
             \<lparr>timestamp = example_time, action_type_entry = lit ''permission'',
              action_description = lit ''Added to whitelist: safe_action'',
              permission_level = 2, user_approved = None, status_entry = lit ''executed'',
              result = None, metadata = []\<rparr>] \<and>
   map permission_level
     (entries_of (file_lines (add_to_whitelist (default_manager []) (lit ''safe_action'')
        SAFE_WRITE)))
     \<noteq> [level_value ADMIN]"
  by (simp add: add_to_whitelist_def log_action_file file_lines_def create_def
      default_manager_def new_manager_def apply_config_def example_clock_def
      lit_append [symmetric])

section \<open>The answer \<^verbatim>\<open>never\<close>\<close>

text \<open>
  What the answer \<^verbatim>\<open>never\<close> does, in any letter case and with blanks around it: the
  call returns the status \<^verbatim>\<open>BLACKLISTED\<close>, and the \<^verbatim>\<open>action_type\<close> of the request
  is on the deny-list afterwards; the allow-list is as it was.
\<close>

lemma never_blacklists:
  assumes "approval_callback s = None"
    and "\<not> is_blacklisted s action" and "\<not> is_auto_approved s action"
    and "required_level action \<noteq> READ" and "required_level action \<noteq> SUGGEST" and "\<not> dry"
    and "stdin s = typed # later" and "str_lower s (strip typed) = lit ''never''"
  shows "success (fst (check_permission s action dry)) = False"
    and "status (fst (check_permission s action dry)) = lit ''BLACKLISTED''"
    and "blacklist (snd (check_permission s action dry)) =
           (if action_type action \<in> set (blacklist s) then blacklist s
            else blacklist s @ [action_type action])"
    and "auto_approve (snd (check_permission s action dry)) = auto_approve s"
  using assms
  by (simp_all add: check_permission_unfold Let_def request_approval_def cli_approval_def
      read_input_def after_pending_fields add_to_blacklist_def log_action_keeps)

text \<open>
  The next check of the same request is denied when its \<^verbatim>\<open>action_type\<close>, read as a
  pattern, matches itself; this is so when it has no opening bracket.
\<close>

lemma never_then_denied:
  assumes "approval_callback s = None"
    and "\<not> is_blacklisted s action" and "\<not> is_auto_approved s action"
    and "required_level action \<noteq> READ" and "required_level action \<noteq> SUGGEST" and "\<not> dry"
    and "stdin s = typed # later" and "str_lower s (strip typed) = lit ''never''"
    and "cp (CHR ''['') \<notin> set (action_type action)"
  shows "success (fst (check_permission (snd (check_permission s action dry)) action again))
           = False \<and>
         status (fst (check_permission (snd (check_permission s action dry)) action again))
           = lit ''DENIED''"
proof -
  let ?s' = "snd (check_permission s action dry)"
  have "action_type action \<in> set (blacklist ?s')"
    using never_blacklists(3) [OF assms(1-8)] by simp
  moreover have "matches_pattern action (action_type action)"
    using assms(9) by (simp add: matches_pattern_def fnmatch_self)
  ultimately have "is_blacklisted ?s' action"
    by (auto simp: is_blacklisted_def intro: blacklisted_by_match)
  then show ?thesis by (rule denied_if_blacklisted)
qed

text \<open>
  Claim C4, at a request whose \<^verbatim>\<open>action_type\<close> holds a bracket expression.  The
  user answers \<^verbatim>\<open>never\<close>: the call returns \<^verbatim>\<open>BLACKLISTED\<close> and
  \<^verbatim>\<open>execute[shell]\<close> is appended to the deny-list.  As a pattern it matches
  \<^verbatim>\<open>executes\<close>, \<^verbatim>\<open>executeh\<close>, ... but not \<^verbatim>\<open>execute[shell]\<close>: the same request is
  not denied the second time, the user is asked again, and the answer \<^verbatim>\<open>y\<close>
  approves it.
\<close>

theorem never_misses_bracket_type:
  "status (fst (check_permission (default_manager [lit ''never'', lit ''y'']) shell_request
      False)) = lit ''BLACKLISTED'' \<and>
   blacklist (snd (check_permission (default_manager [lit ''never'', lit ''y'']) shell_request
      False)) = default_blacklist @ [lit ''execute[shell]''] \<and>
   success (fst (check_permission
      (snd (check_permission (default_manager [lit ''never'', lit ''y'']) shell_request False))
      shell_request False)) \<and>
   status (fst (check_permission
      (snd (check_permission (default_manager [lit ''never'', lit ''y'']) shell_request False))
      shell_request False)) = lit ''approved''"
proof -
  let ?s = "default_manager [lit ''never'', lit ''y'']"
  have start: "approval_callback ?s = None" "stdin ?s = [lit ''never'', lit ''y'']"
    "blacklist ?s = default_blacklist" "auto_approve ?s = default_auto_approve"
    "str_lower ?s = example_lower"
    by (simp_all add: default_manager_def new_manager_def apply_config_def)
  have answers: "example_lower (strip (lit ''never'')) = lit ''never''"
    "example_lower (strip (lit ''y'')) = lit ''y''"
    by (simp_all add: example_lower_def strip_def isspace_def lit_def cp_def)
  have request: "required_level shell_request = EXECUTE"
    "action_type shell_request = lit ''execute[shell]''"
    by (simp_all add: shell_request_def)
  have free: "\<not> is_blacklisted ?s shell_request" "\<not> is_auto_approved ?s shell_request"
    by (simp_all add: example_defs matching_defs)
  have first: "check_permission ?s shell_request False =
      (\<lparr>success = False, status = lit ''BLACKLISTED'',
        message = Some (lit ''Action added to blacklist.''), data = None, dry_run = False\<rparr>,
       add_to_blacklist ((after_pending ?s shell_request)\<lparr>stdin := [lit ''y'']\<rparr>)
         (lit ''execute[shell]''))"
    using free start answers request
    by (simp add: check_permission_unfold Let_def request_approval_def cli_approval_def
        read_input_def after_pending_fields)
  let ?s' = "add_to_blacklist ((after_pending ?s shell_request)\<lparr>stdin := [lit ''y'']\<rparr>)
      (lit ''execute[shell]'')"
  have fresh: "lit ''execute[shell]'' \<notin> set default_blacklist"
    by (simp add: default_blacklist_def lit_eq_iff)
  have lists: "blacklist ?s' = default_blacklist @ [lit ''execute[shell]'']"
    "auto_approve ?s' = default_auto_approve" "approval_callback ?s' = None"
    "stdin ?s' = [lit ''y'']" "str_lower ?s' = example_lower"
    using start fresh
    by (simp_all add: add_to_blacklist_def after_pending_fields log_action_keeps)
  have again: "\<not> is_blacklisted ?s' shell_request" "\<not> is_auto_approved ?s' shell_request"
    unfolding is_blacklisted_def is_auto_approved_def lists
    by (simp_all add: default_blacklist_def default_auto_approve_def shell_request_def
        matches_pattern_def fnmatch_def normcase_def example_lower_def class_end_def
        class_token_def close_chunks_def Let_def lit_def cp_def)
  have differ: "lit ''y'' \<noteq> lit ''never''"
    by (simp add: lit_eq_iff)
  have second: "fst (check_permission ?s' shell_request False) =
      \<lparr>success = True, status = lit ''approved'', message = Some (lit ''Action approved.''),
       data = None, dry_run = False\<rparr>"
    using again lists answers request differ
    by (simp add: check_permission_unfold Let_def request_approval_def cli_approval_def
        read_input_def after_pending_fields)
  from first second lists show ?thesis by simp
qed

end
